theory Spec2Isabelle
  imports
    Complex_Main
    "HOL-Library.AList"
    "HOL-Library.Product_Lexorder"
    "HOL-Library.Char_ord"
    "HOL-Library.List_Lexorder"
    "HOL-Library.Multiset"
begin

section \<open>Python values\<close>

text \<open>
  Metadata dictionaries hold Python values. Numbers (int, float) compare and are equal
  numerically in Python, so one constructor over the reals stands for both; \<open>PNone\<close> is
  what \<open>dict.get\<close> returns for a missing key. A dict is an association list in insertion
  order: assigning to a present key keeps its position, assigning to a new key appends
  (\<open>AList.update\<close>), \<open>del\<close> removes the key (\<open>AList.delete\<close>).
\<close>

datatype pyval = PNone | PNum real | PStr string

type_synonym pydict = "(string \<times> pyval) list"

datatype error = IndexError | TypeError | ProviderFailure | AssertionError

definition md_get :: "pydict \<Rightarrow> string \<Rightarrow> pyval" where
  "md_get d key = (case map_of d key of None \<Rightarrow> PNone | Some v \<Rightarrow> v)"

definition dict_merge :: "pydict \<Rightarrow> pydict \<Rightarrow> pydict" where
  \<comment> \<open>\<open>{**base, **extra}\<close>: the keys of \<open>extra\<close> win.\<close>
  "dict_merge base extra = foldl (\<lambda>d (k, v). AList.update k v d) base extra"

definition or_empty :: "pydict option \<Rightarrow> pydict" where
  \<comment> \<open>\<open>metadata or {}\<close>\<close>
  "or_empty md = (case md of None \<Rightarrow> [] | Some d \<Rightarrow> d)"

fun is_num :: "pyval \<Rightarrow> bool" where
  "is_num (PNum x) = True"
| "is_num v = False"

fun is_str :: "pyval \<Rightarrow> bool" where
  "is_str (PStr s) = True"
| "is_str v = False"

fun num_of :: "pyval \<Rightarrow> real" where
  "num_of (PNum x) = x"
| "num_of v = 0"

fun str_of :: "pyval \<Rightarrow> string" where
  "str_of (PStr s) = s"
| "str_of v = []"

definition lower_char :: "char \<Rightarrow> char" where
  "lower_char c =
     (let n = (of_char c :: nat) in if 65 \<le> n \<and> n \<le> 90 then char_of (n + 32) else c)"

definition lower :: "string \<Rightarrow> string" where
  "lower s = map lower_char s"

section \<open>Entity extractor (app/services/entity_extractor.py)\<close>

record ClinicalEntity =
  ent_text :: string
  ent_label :: string
  ent_start :: int
  ent_end :: int
  ent_confidence :: real

definition bsl :: string where
  \<comment> \<open>the backslash of the regular expressions\<close>
  "bsl = [CHR 0x5C]"

definition patterns :: "(string \<times> string list) list" where
  "patterns =
    [(''MEDICATION'',
       [bsl @ ''b'' @ bsl @ ''w+mycin'' @ bsl @ ''b'',
        bsl @ ''b'' @ bsl @ ''w+cillin'' @ bsl @ ''b'',
        bsl @ ''b'' @ bsl @ ''w+prazole'' @ bsl @ ''b'',
        bsl @ ''b'' @ bsl @ ''w+statin'' @ bsl @ ''b'',
        bsl @ ''b'' @ bsl @ ''w+olol'' @ bsl @ ''b'',
        bsl @ ''b'' @ bsl @ ''w+pine'' @ bsl @ ''b'',
        bsl @ ''baspirin'' @ bsl @ ''b'',
        bsl @ ''bmetformin'' @ bsl @ ''b'',
        bsl @ ''blisinopril'' @ bsl @ ''b'',
        bsl @ ''bibuprofen'' @ bsl @ ''b'',
        bsl @ ''binsulin'' @ bsl @ ''b'']),
     (''LAB_VALUE'',
       [bsl @ ''b(?:HbA1c|A1C)[:'' @ bsl @ ''s]*('' @ bsl @ ''d+'' @ bsl @ ''.?'' @ bsl @ ''d*)'' @ bsl @ ''s*%'',
        bsl @ ''b(?:BP|Blood Pressure)[:'' @ bsl @ ''s]*('' @ bsl @ ''d+)/('' @ bsl @ ''d+)'',
        bsl @ ''b(?:glucose|sugar)[:'' @ bsl @ ''s]*('' @ bsl @ ''d+)'' @ bsl @ ''s*mg/dL'',
        bsl @ ''b(?:creatinine)[:'' @ bsl @ ''s]*('' @ bsl @ ''d+'' @ bsl @ ''.?'' @ bsl @ ''d*)'' @ bsl @ ''s*mg/dL'',
        bsl @ ''b(?:hemoglobin|Hb)[:'' @ bsl @ ''s]*('' @ bsl @ ''d+'' @ bsl @ ''.?'' @ bsl @ ''d*)'' @ bsl @ ''s*g/dL'',
        bsl @ ''b(?:WBC|white blood cell)[:'' @ bsl @ ''s]*('' @ bsl @ ''d+'' @ bsl @ ''.?'' @ bsl @ ''d*)'',
        bsl @ ''b(?:platelet)[:'' @ bsl @ ''s]*('' @ bsl @ ''d+'' @ bsl @ ''.?'' @ bsl @ ''d*)'']),
     (''VITAL_SIGNS'',
       [bsl @ ''b(?:temperature|temp)[:'' @ bsl @ ''s]*('' @ bsl @ ''d+'' @ bsl @ ''.?'' @ bsl @ ''d*)'' @ bsl @ ''s*['' @ [CHR 0xB0] @ '']?[FC]'',
        bsl @ ''b(?:heart rate|HR|pulse)[:'' @ bsl @ ''s]*('' @ bsl @ ''d+)'' @ bsl @ ''s*bpm'',
        bsl @ ''b(?:respiratory rate|RR)[:'' @ bsl @ ''s]*('' @ bsl @ ''d+)'',
        bsl @ ''b(?:SpO2|oxygen saturation)[:'' @ bsl @ ''s]*('' @ bsl @ ''d+)'' @ bsl @ ''s*%''])]"

text \<open>
  The regular-expression engine (\<open>re.finditer\<close> with \<open>re.IGNORECASE\<close>) is the standard
  library's: it is a parameter \<open>finditer pattern txt\<close>, giving the spans
  \<open>(match.start(), match.end())\<close> of the matches in the order the iterator yields them.
  \<open>match.group(0)\<close> is the slice of the text between the two offsets.
\<close>

type_synonym matcher = "string \<Rightarrow> string \<Rightarrow> (nat \<times> nat) list"

definition match_entity :: "string \<Rightarrow> string \<Rightarrow> nat \<times> nat \<Rightarrow> ClinicalEntity" where
  "match_entity txt lbl m =
     \<lparr>ent_text = take (snd m - fst m) (drop (fst m) txt),
      ent_label = lbl,
      ent_start = int (fst m),
      ent_end = int (snd m),
      ent_confidence = 85 / 100\<rparr>"

definition collect_matches :: "matcher \<Rightarrow> string \<Rightarrow> ClinicalEntity list" where
  \<comment> \<open>the three nested loops of \<open>extract_entities\<close>, appending in iteration order\<close>
  "collect_matches finditer txt =
     concat (map (\<lambda>(lbl, pats).
       concat (map (\<lambda>pattern. map (match_entity txt lbl) (finditer pattern txt)) pats))
       patterns)"

fun overlaps_existing :: "ClinicalEntity \<Rightarrow> ClinicalEntity list \<Rightarrow> bool" where
  \<comment> \<open>the inner loop of \<open>_deduplicate_entities\<close>, leaving at the first overlap\<close>
  "overlaps_existing entity [] = False"
| "overlaps_existing entity (existing # rest) =
     (if ent_start entity < ent_end existing \<and> ent_end entity > ent_start existing then True
      else overlaps_existing entity rest)"

fun dedup_loop :: "ClinicalEntity list \<Rightarrow> ClinicalEntity list \<Rightarrow> ClinicalEntity list" where
  \<comment> \<open>the outer loop; the second argument is \<open>deduplicated\<close>\<close>
  "dedup_loop [] deduplicated = deduplicated"
| "dedup_loop (entity # rest) deduplicated =
     (if overlaps_existing entity deduplicated then dedup_loop rest deduplicated
      else dedup_loop rest (deduplicated @ [entity]))"

definition sort_entities :: "ClinicalEntity list \<Rightarrow> ClinicalEntity list" where
  \<comment> \<open>\<open>sorted(entities, key=lambda e: (e.start, -e.confidence))\<close>, a stable sort\<close>
  "sort_entities entities = sort_key (\<lambda>e. (ent_start e, - ent_confidence e)) entities"

definition deduplicate_entities :: "ClinicalEntity list \<Rightarrow> ClinicalEntity list" where
  "deduplicate_entities entities =
     (if entities = [] then [] else dedup_loop (sort_entities entities) [])"

definition extract_entities :: "matcher \<Rightarrow> string \<Rightarrow> ClinicalEntity list" where
  "extract_entities finditer txt = deduplicate_entities (collect_matches finditer txt)"

type_synonym item = "string \<times> real"
  \<comment> \<open>\<open>{'text': ..., 'confidence': ...}\<close>\<close>

definition structured_init :: "(string \<times> item list) list" where
  "structured_init =
     [(''medications'', []), (''lab_values'', []), (''vital_signs'', []),
      (''diagnoses'', []), (''procedures'', []), (''symptoms'', [])]"

definition dict_append :: "string \<Rightarrow> item \<Rightarrow> (string \<times> item list) list \<Rightarrow> (string \<times> item list) list" where
  \<comment> \<open>\<open>structured[key].append(x)\<close>\<close>
  "dict_append key x d = AList.map_entry key (\<lambda>l. l @ [x]) d"

fun structure_loop :: "ClinicalEntity list \<Rightarrow> (string \<times> item list) list \<Rightarrow> (string \<times> item list) list" where
  "structure_loop [] structured = structured"
| "structure_loop (entity # rest) structured =
     (let category = lower (ent_label entity);
          x = (ent_text entity, ent_confidence entity)
      in structure_loop rest
           (if category = ''medication'' then dict_append ''medications'' x structured
            else if category = ''lab_value'' then dict_append ''lab_values'' x structured
            else if category = ''vital_signs'' then dict_append ''vital_signs'' x structured
            else structured))"

definition extract_structured_data :: "matcher \<Rightarrow> string \<Rightarrow> (string \<times> item list) list" where
  "extract_structured_data finditer txt =
     structure_loop (extract_entities finditer txt) structured_init"

subsection \<open>The deduplication policy in the specification's words\<close>

text \<open>
  The specification's policy, stated independently of the loops above: two candidates
  overlap when their half-open intervals share an offset; \<open>ranks_before\<close> is the order
  "ascending start, ties broken by descending confidence"; a pass over the ranked
  candidates accepts a candidate when no accepted one overlaps it.
\<close>

definition intervals_intersect :: "ClinicalEntity \<Rightarrow> ClinicalEntity \<Rightarrow> bool" where
  "intervals_intersect a b =
     ({ent_start a ..< ent_end a} \<inter> {ent_start b ..< ent_end b} \<noteq> {})"

definition ranks_before :: "ClinicalEntity \<Rightarrow> ClinicalEntity \<Rightarrow> bool" where
  "ranks_before a b =
     (ent_start a < ent_start b \<or> (ent_start a = ent_start b \<and> ent_confidence a > ent_confidence b))"

definition spec_accept :: "ClinicalEntity list \<Rightarrow> ClinicalEntity \<Rightarrow> ClinicalEntity list" where
  "spec_accept accepted c =
     (if list_ex (intervals_intersect c) accepted then accepted else accepted @ [c])"

definition scenario_c_aspirin :: ClinicalEntity where
  "scenario_c_aspirin =
     \<lparr>ent_text = ''aspirin'', ent_label = ''MEDICATION'', ent_start = 10, ent_end = 17,
      ent_confidence = 85 / 100\<rparr>"

definition scenario_c_wide :: "string \<Rightarrow> string \<Rightarrow> ClinicalEntity" where
  "scenario_c_wide t l =
     \<lparr>ent_text = t, ent_label = l, ent_start = 8, ent_end = 20, ent_confidence = 85 / 100\<rparr>"

section \<open>Vector store (app/services/vector_store.py)\<close>

record Document =
  page_content :: string
  metadata :: pydict

record VectorStore =
  vector_store :: "Document list option"
  metadata_store :: "(string \<times> pydict) list"

record AddResult =
  added_report_id :: string
  chunks_added :: nat
  status :: string

record SearchResult =
  content :: string
  result_metadata :: pydict
  similarity_score :: real
  report_id :: pyval

record Stats =
  total_reports :: nat
  total_chunks :: nat
  reports :: "string list"

text \<open>
  The FAISS index, the embedding model and the text splitter are libraries. The splitter
  is a parameter \<open>split_text\<close>. The embedding is deterministic, so the distance the index
  computes between a query and a stored chunk is a function of the two texts: a parameter
  \<open>dst query chunk_text\<close>. The index is the flat exhaustive one \<open>FAISS.from_texts\<close>
  builds: it holds the chunks in insertion order, \<open>merge_from\<close> appends, and a search
  scores every chunk and returns the \<open>k\<close> nearest by ascending distance (equal distances
  in insertion order). \<open>from_texts\<close> of no text raises (it reads the first embedding).
  The number \<open>k\<close> of neighbours is the caller's integer, passed on unchecked; the index
  asserts \<open>k > 0\<close> and raises otherwise.
  Writing the store to disk (\<open>_save_vector_store\<close>) changes nothing a later call of the
  same process reads and is left out. Distances, scores and confidences are floats in the
  source and reals here: the properties below use their order and the subtraction
  \<open>1 - score\<close> only, which rounding keeps monotone.
\<close>

type_synonym distance = "string \<Rightarrow> string \<Rightarrow> real"

definition from_texts :: "string list \<Rightarrow> pydict list \<Rightarrow> error + Document list" where
  "from_texts chunks metadatas =
     (if chunks = [] then Inl IndexError
      else Inr (map (\<lambda>(c, m). \<lparr>page_content = c, metadata = m\<rparr>) (zip chunks metadatas)))"

definition merge_from :: "Document list \<Rightarrow> Document list \<Rightarrow> Document list" where
  "merge_from docs new_vectors = docs @ new_vectors"

definition ntotal :: "Document list \<Rightarrow> nat" where
  "ntotal docs = length docs"

definition nearest :: "distance \<Rightarrow> Document list \<Rightarrow> string \<Rightarrow> nat \<Rightarrow> (Document \<times> real) list" where
  \<comment> \<open>the index's own search: every chunk scored, the \<open>n\<close> nearest kept\<close>
  "nearest dst docs query n =
     take n (sort_key snd (map (\<lambda>doc. (doc, dst query (page_content doc))) docs))"

definition similarity_search_with_score ::
    "distance \<Rightarrow> Document list \<Rightarrow> string \<Rightarrow> int \<Rightarrow> error + (Document \<times> real) list" where
  "similarity_search_with_score dst docs query k =
     (if k \<le> 0 then Inl AssertionError else Inr (nearest dst docs query (nat k)))"

definition similarity_search ::
    "distance \<Rightarrow> Document list \<Rightarrow> string \<Rightarrow> int \<Rightarrow> error + Document list" where
  "similarity_search dst docs query k =
     (case similarity_search_with_score dst docs query k of
        Inl e \<Rightarrow> Inl e
      | Inr results \<Rightarrow> Inr (map fst results))"

definition empty_store :: VectorStore where
  \<comment> \<open>the state after \<open>__init__\<close> when nothing could be loaded\<close>
  "empty_store = \<lparr>vector_store = None, metadata_store = []\<rparr>"

definition chunk_metadata :: "string \<Rightarrow> nat \<Rightarrow> nat \<Rightarrow> pydict \<Rightarrow> pydict" where
  "chunk_metadata rid i n md =
     dict_merge
       [(''report_id'', PStr rid), (''chunk_id'', PNum (real i)), (''chunk_total'', PNum (real n))]
       md"

definition add_report ::
    "(string \<Rightarrow> string list) \<Rightarrow> VectorStore \<Rightarrow> string \<Rightarrow> string \<Rightarrow> pydict option
       \<Rightarrow> error + (AddResult \<times> VectorStore)" where
  "add_report split_text st rid txt md =
     (let chunks = split_text txt;
          metadatas = map (\<lambda>(i, chunk). chunk_metadata rid i (length chunks) (or_empty md))
                        (enumerate 0 chunks)
      in case from_texts chunks metadatas of
           Inl e \<Rightarrow> Inl e
         | Inr new_vectors \<Rightarrow>
             Inr (\<lparr>added_report_id = rid, chunks_added = length chunks, status = ''success''\<rparr>,
                  st\<lparr>vector_store :=
                        Some (case vector_store st of
                                None \<Rightarrow> new_vectors
                              | Some docs \<Rightarrow> merge_from docs new_vectors),
                     metadata_store := AList.update rid (or_empty md) (metadata_store st)\<rparr>))"

fun filter_skips :: "pydict \<Rightarrow> pydict \<Rightarrow> bool" where
  \<comment> \<open>the loop over \<open>filter_by.items()\<close>: the value of \<open>skip\<close> when it ends\<close>
  "filter_skips [] md = False"
| "filter_skips ((key, val) # rest) md =
     (if md_get md key \<noteq> val then True else filter_skips rest md)"

definition filter_applies :: "pydict option \<Rightarrow> bool" where
  \<comment> \<open>\<open>if filter_by:\<close> is false for \<open>None\<close> and for the empty dict\<close>
  "filter_applies filter_by = (case filter_by of None \<Rightarrow> False | Some items \<Rightarrow> items \<noteq> [])"

fun format_results :: "pydict option \<Rightarrow> (Document \<times> real) list \<Rightarrow> SearchResult list" where
  \<comment> \<open>the loop over \<open>results\<close>; where the filter applies, \<open>or_empty filter_by\<close> is the filter\<close>
  "format_results filter_by [] = []"
| "format_results filter_by ((doc, score) # rest) =
     (if filter_applies filter_by \<and> filter_skips (or_empty filter_by) (metadata doc)
      then format_results filter_by rest
      else \<lparr>content = page_content doc,
            result_metadata = metadata doc,
            similarity_score = 1 - score,
            report_id = md_get (metadata doc) ''report_id''\<rparr>
           # format_results filter_by rest)"

definition search ::
    "distance \<Rightarrow> VectorStore \<Rightarrow> string \<Rightarrow> int \<Rightarrow> pydict option \<Rightarrow> error + SearchResult list" where
  "search dst st query k filter_by =
     (case vector_store st of
        None \<Rightarrow> Inr []
      | Some docs \<Rightarrow>
          (case similarity_search_with_score dst docs query k of
             Inl e \<Rightarrow> Inl e
           | Inr results \<Rightarrow> Inr (format_results filter_by results)))"

definition search_by_report_ids ::
    "distance \<Rightarrow> VectorStore \<Rightarrow> string \<Rightarrow> string list \<Rightarrow> int \<Rightarrow> error + SearchResult list" where
  "search_by_report_ids dst st query report_ids k =
     search dst st query k
       (case report_ids of [r] \<Rightarrow> Some [(''report_id'', PStr r)] | _ \<Rightarrow> None)"

definition sort_by_chunk_id :: "(string \<times> pyval) list \<Rightarrow> error + (string \<times> pyval) list" where
  \<comment> \<open>\<open>chunks.sort(key=...)\<close>: stable; comparing keys that are not all numbers or all
      strings raises TypeError\<close>
  "sort_by_chunk_id chunks =
     (if length chunks \<le> 1 then Inr chunks
      else if list_all (\<lambda>c. is_num (snd c)) chunks then Inr (sort_key (\<lambda>c. num_of (snd c)) chunks)
      else if list_all (\<lambda>c. is_str (snd c)) chunks then Inr (sort_key (\<lambda>c. str_of (snd c)) chunks)
      else Inl TypeError)"

definition report_chunk_dicts :: "Document list \<Rightarrow> string \<Rightarrow> (string \<times> pyval) list" where
  \<comment> \<open>the list \<open>chunks\<close> built from \<open>all_docs\<close>, before it is sorted: pairs of
      \<open>content\<close> and \<open>chunk_id\<close>\<close>
  "report_chunk_dicts all_docs rid =
     map (\<lambda>doc. (page_content doc, md_get (metadata doc) ''chunk_id''))
       (filter (\<lambda>doc. md_get (metadata doc) ''report_id'' = PStr rid) all_docs)"

definition get_report_chunks :: "distance \<Rightarrow> VectorStore \<Rightarrow> string \<Rightarrow> error + string list" where
  "get_report_chunks dst st rid =
     (case vector_store st of
        None \<Rightarrow> Inr []
      | Some docs \<Rightarrow>
          (case similarity_search dst docs [] 1000 of
             Inl e \<Rightarrow> Inl e
           | Inr all_docs \<Rightarrow>
               (case sort_by_chunk_id (report_chunk_dicts all_docs rid) of
                  Inl e \<Rightarrow> Inl e
                | Inr chunks \<Rightarrow> Inr (map fst chunks))))"

definition delete_report :: "VectorStore \<Rightarrow> string \<Rightarrow> (string \<times> string) list \<times> VectorStore" where
  "delete_report st rid =
     (if rid \<in> set (map fst (metadata_store st))
      then ([(''status'', ''marked_for_deletion''), (''note'', ''Full deletion requires rebuild'')],
            st\<lparr>metadata_store := AList.delete rid (metadata_store st)\<rparr>)
      else ([(''status'', ''not_found'')], st))"

definition get_stats :: "VectorStore \<Rightarrow> Stats" where
  "get_stats st =
     (case vector_store st of
        None \<Rightarrow> \<lparr>total_reports = 0, total_chunks = 0, reports = []\<rparr>
      | Some docs \<Rightarrow>
          \<lparr>total_reports = length (metadata_store st),
           total_chunks = ntotal docs,
           reports = map fst (metadata_store st)\<rparr>)"

definition dict_ok :: "VectorStore \<Rightarrow> bool" where
  \<comment> \<open>what being a dict means for the association list: no key twice\<close>
  "dict_ok st = distinct (map fst (metadata_store st))"

section \<open>Question answering (app/services/qa_engine.py)\<close>

record Source =
  src_report_id :: pyval
  src_chunk_id :: pyval
  src_similarity :: real
  excerpt :: string

record Answer =
  answer :: string
  sources :: "Source list"
  confidence :: real
  num_sources :: "nat option"

text \<open>
  The language model is a collaborator: \<open>llm question docs\<close> stands for formatting the
  prompt from the retrieved chunks and invoking the model, \<open>None\<close> when the call raises.
  \<open>round2\<close> is Python's \<open>round(x, 2)\<close>. The sentinel dict has no \<open>num_sources\<close> key.
\<close>

definition format_sources :: "SearchResult list \<Rightarrow> Source list" where
  "format_sources documents =
     map (\<lambda>doc.
       \<lparr>src_report_id = md_get (result_metadata doc) ''report_id'',
        src_chunk_id = md_get (result_metadata doc) ''chunk_id'',
        src_similarity = similarity_score doc,
        excerpt = (if length (content doc) > 200 then take 200 (content doc) @ ''...''
                   else content doc)\<rparr>) documents"

definition no_information :: Answer where
  "no_information =
     \<lparr>answer = ''I couldn'' @ [CHR 0x27] @ ''t find relevant information in the reports to answer this question.'',
      sources = [],
      confidence = 0,
      num_sources = None\<rparr>"

fun search_each ::
    "distance \<Rightarrow> VectorStore \<Rightarrow> string \<Rightarrow> int \<Rightarrow> string list \<Rightarrow> SearchResult list
       \<Rightarrow> error + SearchResult list" where
  \<comment> \<open>the loop over \<open>report_ids\<close>, extending \<open>relevant_docs\<close>; a search that raises ends it\<close>
  "search_each dst st question k [] found = Inr found"
| "search_each dst st question k (r # rest) found =
     (case search_by_report_ids dst st question [r] k of
        Inl e \<Rightarrow> Inl e
      | Inr docs \<Rightarrow> search_each dst st question k rest (found @ docs))"

definition relevant_docs ::
    "distance \<Rightarrow> VectorStore \<Rightarrow> string \<Rightarrow> string list option \<Rightarrow> int \<Rightarrow> error + SearchResult list" where
  \<comment> \<open>\<open>if report_ids:\<close> is false for \<open>None\<close> and for the empty list\<close>
  "relevant_docs dst st question report_ids k =
     (case report_ids of
        None \<Rightarrow> search dst st question k None
      | Some ids \<Rightarrow>
          if ids = [] then search dst st question k None
          else search_each dst st question k ids [])"

definition answer_question ::
    "distance \<Rightarrow> (string \<Rightarrow> SearchResult list \<Rightarrow> string option) \<Rightarrow> (real \<Rightarrow> real)
       \<Rightarrow> VectorStore \<Rightarrow> string \<Rightarrow> string list option \<Rightarrow> int \<Rightarrow> error + Answer" where
  "answer_question dst llm round2 st question report_ids k =
     (case relevant_docs dst st question report_ids k of
        Inl e \<Rightarrow> Inl e
      | Inr docs \<Rightarrow>
          if docs = [] then Inr no_information
          else case llm question docs of
                 None \<Rightarrow> Inl ProviderFailure
               | Some text_out \<Rightarrow>
                   Inr \<lparr>answer = text_out,
                        sources = format_sources docs,
                        confidence = round2 (sum_list (map similarity_score docs) / real (length docs)),
                        num_sources = Some (length docs)\<rparr>)"

section \<open>Example inputs\<close>

text \<open>
  A matcher that answers as the regular-expression engine does on the text
  \<open>on aspirin and amlodipine; RR 16\<close>; a splitter that keeps a short text as one chunk;
  a store holding three one-chunk reports, as three calls of \<open>add_report\<close> on the empty
  store leave it, and distances as an L2 index over normalised embeddings gives them
  (between 0 and 4).
\<close>

definition example_matcher :: matcher where
  "example_matcher pattern txt =
        (if pattern = bsl @ ''baspirin'' @ bsl @ ''b'' then [(3, 10)]
         else if pattern = bsl @ ''b'' @ bsl @ ''w+pine'' @ bsl @ ''b'' then [(15, 25)]
         else if pattern = bsl @ ''b(?:respiratory rate|RR)[:'' @ bsl @ ''s]*('' @ bsl @ ''d+)'' then [(27, 32)]
         else [])"

definition example_split :: "string \<Rightarrow> string list" where
  "example_split txt = (if txt = [] then [] else [txt])"

definition example_dst :: distance where
  "example_dst query chunk =
     (if chunk = ''fever and cough'' then 1 / 2
      else if chunk = ''normal chest x-ray'' then 2
      else 6 / 5)"

definition example_store :: VectorStore where
  "example_store =
     \<lparr>vector_store = Some
        [\<lparr>page_content = ''fever and cough'',
          metadata = [(''report_id'', PStr ''r1''), (''chunk_id'', PNum 0), (''chunk_total'', PNum 1)]\<rparr>,
         \<lparr>page_content = ''normal chest x-ray'',
          metadata = [(''report_id'', PStr ''r2''), (''chunk_id'', PNum 0), (''chunk_total'', PNum 1)]\<rparr>,
         \<lparr>page_content = ''glucose 180'',
          metadata = [(''report_id'', PStr ''r3''), (''chunk_id'', PNum 0), (''chunk_total'', PNum 1)]\<rparr>],
      metadata_store = [(''r1'', []), (''r2'', []), (''r3'', [])]\<rparr>"

text \<open>
  A splitter cutting a long report into 1001 chunks and the store one call of
  \<open>add_report\<close> on the empty store then leaves; the example store after a second
  \<open>add_report\<close> for \<open>r1\<close> whose metadata carries its own \<open>report_id\<close>.
\<close>

definition big_split :: "string \<Rightarrow> string list" where
  "big_split txt = replicate 1001 ''chunk''"

definition big_store :: VectorStore where
  "big_store =
     \<lparr>vector_store = Some
        (map (\<lambda>i. \<lparr>page_content = ''chunk'',
                    metadata = [(''report_id'', PStr ''r1''), (''chunk_id'', PNum (real i)),
                                (''chunk_total'', PNum 1001)]\<rparr>) [0..<1001]),
      metadata_store = [(''r1'', [])]\<rparr>"


section \<open>Properties\<close>

subsection \<open>Entity deduplication\<close>

lemma overlaps_existing_iff:
  "overlaps_existing e acc \<longleftrightarrow>
     list_ex (\<lambda>x. ent_start e < ent_end x \<and> ent_end e > ent_start x) acc"
  by (induction acc) auto

lemma dedup_loop_apart:
  "sorted_wrt (\<lambda>a b. \<not> (ent_start b < ent_end a \<and> ent_end b > ent_start a)) acc \<Longrightarrow>
   sorted_wrt (\<lambda>a b. \<not> (ent_start b < ent_end a \<and> ent_end b > ent_start a)) (dedup_loop xs acc)"
proof (induction xs arbitrary: acc)
  case Nil
  then show ?case by simp
next
  case (Cons x xs)
  show ?case
  proof (cases "overlaps_existing x acc")
    case True
    then show ?thesis using Cons by simp
  next
    case False
    then have "sorted_wrt (\<lambda>a b. \<not> (ent_start b < ent_end a \<and> ent_end b > ent_start a)) (acc @ [x])"
      using Cons.prems by (auto simp: sorted_wrt_append overlaps_existing_iff list_ex_iff)
    then show ?thesis using False Cons.IH by simp
  qed
qed

lemma deduplicate_entities_apart:
  "sorted_wrt (\<lambda>a b. \<not> (ent_start b < ent_end a \<and> ent_end b > ent_start a))
     (deduplicate_entities entities)"
  unfolding deduplicate_entities_def using dedup_loop_apart [of "[]"] by simp

lemma apart_disjoint:
  "\<not> (ent_start b < ent_end a \<and> ent_end b > ent_start a) \<Longrightarrow>
   {ent_start a ..< ent_end a} \<inter> {ent_start b ..< ent_end b} = {}"
  by auto

text \<open>
  C1. For every input text (and whatever spans the regular-expression engine reports), the
  entities \<open>extract_entities\<close> returns are pairwise non-overlapping: at any two different
  positions of the output the half-open intervals \<open>[start, end)\<close> share no offset.
\<close>

theorem extract_entities_non_overlapping:
  assumes "i < length (extract_entities finditer txt)"
      and "j < length (extract_entities finditer txt)"
      and "i \<noteq> j"
  shows "{ent_start (extract_entities finditer txt ! i) ..< ent_end (extract_entities finditer txt ! i)}
         \<inter> {ent_start (extract_entities finditer txt ! j) ..< ent_end (extract_entities finditer txt ! j)} = {}"
proof -
  let ?out = "extract_entities finditer txt"
  have sw: "sorted_wrt (\<lambda>a b. \<not> (ent_start b < ent_end a \<and> ent_end b > ent_start a)) ?out"
    unfolding extract_entities_def by (rule deduplicate_entities_apart)
  consider "i < j" | "j < i" using assms(3) by linarith
  then show ?thesis
  proof cases
    case 1
    from sorted_wrt_nth_less [OF sw 1 assms(2)] show ?thesis by (rule apart_disjoint)
  next
    case 2
    from sorted_wrt_nth_less [OF sw 2 assms(1)]
    have "{ent_start (?out ! j) ..< ent_end (?out ! j)} \<inter> {ent_start (?out ! i) ..< ent_end (?out ! i)} = {}"
      by (rule apart_disjoint)
    then show ?thesis by (simp add: Int_commute)
  qed
qed

lemma example_matcher_out: "extract_entities example_matcher ''on aspirin and amlodipine; RR 16'' =
  [\<lparr>ent_text = ''aspirin'', ent_label = ''MEDICATION'', ent_start = 3, ent_end = 10, ent_confidence = 85/100\<rparr>,
   \<lparr>ent_text = ''amlodipine'', ent_label = ''MEDICATION'', ent_start = 15, ent_end = 25, ent_confidence = 85/100\<rparr>,
   \<lparr>ent_text = ''RR 16'', ent_label = ''VITAL_SIGNS'', ent_start = 27, ent_end = 32, ent_confidence = 85/100\<rparr>]"
  by (simp add: extract_entities_def deduplicate_entities_def sort_entities_def collect_matches_def patterns_def example_matcher_def bsl_def match_entity_def)

text \<open>
  C1, witness: on the example text the output has three entities and the first two are
  disjoint.
\<close>

theorem extract_entities_non_overlapping_witness:
  "{ent_start (extract_entities example_matcher ''on aspirin and amlodipine; RR 16'' ! 0) ..<
      ent_end (extract_entities example_matcher ''on aspirin and amlodipine; RR 16'' ! 0)}
   \<inter> {ent_start (extract_entities example_matcher ''on aspirin and amlodipine; RR 16'' ! 1) ..<
      ent_end (extract_entities example_matcher ''on aspirin and amlodipine; RR 16'' ! 1)} = {}
   \<and> length (extract_entities example_matcher ''on aspirin and amlodipine; RR 16'') = 3"
  using extract_entities_non_overlapping [of 0 example_matcher "''on aspirin and amlodipine; RR 16''" 1]
  by (simp add: example_matcher_out)

lemma wf_overlap_iff:
  assumes "ent_start a < ent_end a" and "ent_start b < ent_end b"
  shows "intervals_intersect a b \<longleftrightarrow> (ent_start a < ent_end b \<and> ent_end a > ent_start b)"
proof
  assume "intervals_intersect a b"
  then obtain x where "x \<in> {ent_start a ..< ent_end a}" "x \<in> {ent_start b ..< ent_end b}"
    unfolding intervals_intersect_def by blast
  then show "ent_start a < ent_end b \<and> ent_end a > ent_start b" by simp
next
  assume h: "ent_start a < ent_end b \<and> ent_end a > ent_start b"
  have "max (ent_start a) (ent_start b) \<in> {ent_start a ..< ent_end a} \<inter> {ent_start b ..< ent_end b}"
    using assms h by simp
  then show "intervals_intersect a b"
    unfolding intervals_intersect_def by blast
qed

lemma overlaps_existing_spec:
  assumes "ent_start e < ent_end e" and "list_all (\<lambda>x. ent_start x < ent_end x) acc"
  shows "overlaps_existing e acc = list_ex (intervals_intersect e) acc"
  using assms(2) by (induction acc) (auto simp: wf_overlap_iff [OF assms(1)])

lemma spec_accept_wf:
  "list_all (\<lambda>x. ent_start x < ent_end x) acc \<Longrightarrow> ent_start e < ent_end e \<Longrightarrow>
   list_all (\<lambda>x. ent_start x < ent_end x) (spec_accept acc e)"
  by (simp add: spec_accept_def)

lemma dedup_loop_spec:
  "list_all (\<lambda>x. ent_start x < ent_end x) xs \<Longrightarrow> list_all (\<lambda>x. ent_start x < ent_end x) acc \<Longrightarrow>
   dedup_loop xs acc = foldl spec_accept acc xs"
proof (induction xs arbitrary: acc)
  case Nil
  then show ?case by simp
next
  case (Cons x xs)
  have step: "(if overlaps_existing x acc then acc else acc @ [x]) = spec_accept acc x"
    using Cons.prems by (simp add: overlaps_existing_spec spec_accept_def)
  have "dedup_loop (x # xs) acc = dedup_loop xs (spec_accept acc x)"
    using step by (cases "overlaps_existing x acc") simp_all
  also have "\<dots> = foldl spec_accept (spec_accept acc x) xs"
    using Cons.prems by (intro Cons.IH spec_accept_wf) simp_all
  finally show ?case by simp
qed

lemma sort_entities_ranked:
  "sorted_wrt (\<lambda>a b. \<not> ranks_before b a) (sort_entities entities)"
proof -
  have "sorted (map (\<lambda>e. (ent_start e, - ent_confidence e)) (sort_entities entities))"
    unfolding sort_entities_def by (rule sorted_sort_key)
  then have "sorted_wrt (\<lambda>a b. (ent_start a, - ent_confidence a) \<le> (ent_start b, - ent_confidence b))
      (sort_entities entities)"
    by (simp add: sorted_map)
  then show ?thesis
    by (rule sorted_wrt_mono_rel [rotated]) (auto simp: ranks_before_def less_eq_prod_def)
qed

text \<open>
  C2. On candidates with \<open>start < end\<close>, \<open>_deduplicate_entities\<close> is the greedy policy of
  the specification: the candidates are put in an order that is a permutation of the input
  and in which no later candidate ranks before an earlier one (ascending start, ties by
  descending confidence), and one pass over that order accepts a candidate exactly when its
  interval intersects no accepted interval. Scenario C: of the match \<open>aspirin\<close> at
  \<open>[10, 17)\<close> and a match covering \<open>[8, 20)\<close>, both of confidence 0.85, the one starting at
  8 is accepted and the one starting at 10 is discarded, in whichever order they arrive.
\<close>

theorem deduplicate_entities_greedy_policy:
  assumes "list_all (\<lambda>e. ent_start e < ent_end e) entities"
  shows "mset (sort_entities entities) = mset entities
       \<and> sorted_wrt (\<lambda>a b. \<not> ranks_before b a) (sort_entities entities)
       \<and> deduplicate_entities entities = foldl spec_accept [] (sort_entities entities)
       \<and> deduplicate_entities [scenario_c_aspirin, scenario_c_wide t l] = [scenario_c_wide t l]
       \<and> deduplicate_entities [scenario_c_wide t l, scenario_c_aspirin] = [scenario_c_wide t l]"
proof -
  have perm: "mset (sort_entities entities) = mset entities"
    by (simp add: sort_entities_def)
  have wf: "list_all (\<lambda>e. ent_start e < ent_end e) (sort_entities entities)"
    using assms by (simp add: sort_entities_def list_all_iff)
  have pass: "deduplicate_entities entities = foldl spec_accept [] (sort_entities entities)"
  proof (cases "entities = []")
    case True
    then show ?thesis by (simp add: deduplicate_entities_def sort_entities_def)
  next
    case False
    then show ?thesis
      using dedup_loop_spec [OF wf, of "[]"] by (simp add: deduplicate_entities_def)
  qed
  have c1: "deduplicate_entities [scenario_c_aspirin, scenario_c_wide t l] = [scenario_c_wide t l]"
    by (simp add: deduplicate_entities_def sort_entities_def scenario_c_aspirin_def scenario_c_wide_def)
  have c2: "deduplicate_entities [scenario_c_wide t l, scenario_c_aspirin] = [scenario_c_wide t l]"
    by (simp add: deduplicate_entities_def sort_entities_def scenario_c_aspirin_def scenario_c_wide_def)
  show ?thesis using perm sort_entities_ranked pass c1 c2 by blast
qed

text \<open>
  C2, witness: the two candidates of Scenario C.
\<close>

theorem deduplicate_entities_greedy_policy_witness:
  "list_all (\<lambda>e. ent_start e < ent_end e) [scenario_c_aspirin, scenario_c_wide ''aspirin-like'' ''LAB_VALUE'']
   \<and> deduplicate_entities [scenario_c_aspirin, scenario_c_wide ''aspirin-like'' ''LAB_VALUE'']
       = foldl spec_accept [] (sort_entities [scenario_c_aspirin, scenario_c_wide ''aspirin-like'' ''LAB_VALUE''])
   \<and> deduplicate_entities [scenario_c_aspirin, scenario_c_wide ''aspirin-like'' ''LAB_VALUE'']
       = [scenario_c_wide ''aspirin-like'' ''LAB_VALUE'']"
proof -
  have h: "list_all (\<lambda>e. ent_start e < ent_end e) [scenario_c_aspirin, scenario_c_wide ''aspirin-like'' ''LAB_VALUE'']"
    by (simp add: scenario_c_aspirin_def scenario_c_wide_def)
  from deduplicate_entities_greedy_policy [OF h, where t = "''aspirin-like''" and l = "''LAB_VALUE''"]
  show ?thesis using h by blast
qed

subsection \<open>Search\<close>

lemma example_store_built:
  "(case add_report example_split empty_store ''r1'' ''fever and cough'' None of
      Inl e \<Rightarrow> None
    | Inr (res1, st1) \<Rightarrow>
       (case add_report example_split st1 ''r2'' ''normal chest x-ray'' None of
          Inl e \<Rightarrow> None
        | Inr (res2, st2) \<Rightarrow>
           (case add_report example_split st2 ''r3'' ''glucose 180'' None of
              Inl e \<Rightarrow> None
            | Inr (res3, st3) \<Rightarrow> Some st3))) = Some example_store"
  by (simp add: add_report_def example_split_def empty_store_def from_texts_def chunk_metadata_def
       dict_merge_def or_empty_def enumerate_eq_zip merge_from_def example_store_def)

lemma format_results_eq:
  "format_results f rs =
     map (\<lambda>p. \<lparr>content = page_content (fst p), result_metadata = metadata (fst p),
            similarity_score = 1 - snd p, report_id = md_get (metadata (fst p)) ''report_id''\<rparr>)
       (filter (\<lambda>p. \<not> (filter_applies f \<and> filter_skips (or_empty f) (metadata (fst p)))) rs)"
  by (induction rs) auto

lemma filter_skips_iff:
  "filter_skips items md \<longleftrightarrow> list_ex (\<lambda>(key, val). md_get md key \<noteq> val) items"
  by (induction items) auto

lemma knn_length: "length (nearest dst docs q n) \<le> n"
  by (simp add: nearest_def)

lemma knn_sorted: "sorted (map snd (nearest dst docs q n))"
proof -
  have "sorted (map snd (sort_key snd (map (\<lambda>doc. (doc, dst q (page_content doc))) docs)))"
    by (rule sorted_sort_key)
  then have "sorted (take n (map snd (sort_key snd (map (\<lambda>doc. (doc, dst q (page_content doc))) docs))))"
    by (rule sorted_wrt_take)
  then show ?thesis by (simp add: nearest_def take_map)
qed

lemma knn_scores:
  "(doc, score) \<in> set (nearest dst docs q n) \<Longrightarrow>
     score = dst q (page_content doc) \<and> doc \<in> set docs"
proof -
  assume "(doc, score) \<in> set (nearest dst docs q n)"
  then have "(doc, score) \<in> set (sort_key snd (map (\<lambda>doc. (doc, dst q (page_content doc))) docs))"
    unfolding nearest_def by (rule in_set_takeD)
  then show ?thesis by auto
qed

lemma search_pos:
  "0 < k \<Longrightarrow> search dst st q k f =
     Inr (case vector_store st of
            None \<Rightarrow> []
          | Some docs \<Rightarrow> format_results f (nearest dst docs q (nat k)))"
  by (cases "vector_store st") (simp_all add: search_def similarity_search_with_score_def)

lemma search_nonpos:
  "k \<le> 0 \<Longrightarrow> vector_store st = Some docs \<Longrightarrow> search dst st q k f = Inl AssertionError"
  by (simp add: search_def similarity_search_with_score_def)

lemma search_InrE:
  assumes "search dst st q k f = Inr rs"
  obtains "vector_store st = None" and "rs = []"
  | docs where "vector_store st = Some docs" and "0 < k"
      and "rs = format_results f (nearest dst docs q (nat k))"
proof (cases "vector_store st")
  case None
  then show ?thesis using assms that(1) by (simp add: search_def)
next
  case (Some docs)
  then show ?thesis using assms that(2) [of docs]
    by (cases "k \<le> 0") (simp_all add: search_def similarity_search_with_score_def)
qed

lemma search_scores_desc:
  assumes "search dst st q k f = Inr rs"
  shows "sorted_wrt (\<lambda>a b. a \<ge> b) (map similarity_score rs)"
  using assms
proof (cases rule: search_InrE)
  case 1
  then show ?thesis by simp
next
  case (2 docs)
  let ?rs = "nearest dst docs q (nat k)"
  let ?keep = "\<lambda>p. \<not> (filter_applies f \<and> filter_skips (or_empty f) (metadata (fst p)))"
  have "sorted_wrt (\<lambda>a b. a \<le> b) (map snd ?rs)" using knn_sorted [of dst docs q "nat k"] by simp
  then have "sorted_wrt (\<lambda>a b. snd a \<le> snd b) ?rs" by (simp add: sorted_wrt_map)
  then have "sorted_wrt (\<lambda>a b. snd a \<le> snd b) (filter ?keep ?rs)" by (rule sorted_wrt_filter)
  then have "sorted_wrt (\<lambda>a b. 1 - snd a \<ge> 1 - snd b) (filter ?keep ?rs)"
    by (rule sorted_wrt_mono_rel [rotated]) simp
  then show ?thesis
    using 2 by (simp add: format_results_eq sorted_wrt_map comp_def)
qed

lemma search_length:
  assumes "search dst st q k f = Inr rs" and "0 < k"
  shows "int (length rs) \<le> k"
  using assms(1)
proof (cases rule: search_InrE)
  case 1
  then show ?thesis using assms(2) by simp
next
  case (2 docs)
  have "length rs \<le> length (nearest dst docs q (nat k))"
    using 2 by (simp add: format_results_eq)
  then have "length rs \<le> nat k" using knn_length [of dst docs q "nat k"] by linarith
  then show ?thesis using assms(2) by linarith
qed

lemma search_resultE:
  assumes "search dst st q k f = Inr rs" and "r \<in> set rs"
  obtains docs doc where "vector_store st = Some docs" and "doc \<in> set docs"
    and "content r = page_content doc" and "result_metadata r = metadata doc"
    and "similarity_score r = 1 - dst q (page_content doc)"
    and "\<not> (filter_applies f \<and> filter_skips (or_empty f) (metadata doc))"
  using assms(1)
proof (cases rule: search_InrE)
  case 1
  then show ?thesis using assms(2) by simp
next
  case (2 docs)
  from assms(2) 2 obtain p where
    m: "p \<in> set (nearest dst docs q (nat k))"
    and k: "\<not> (filter_applies f \<and> filter_skips (or_empty f) (metadata (fst p)))"
    and r: "r = \<lparr>content = page_content (fst p), result_metadata = metadata (fst p),
            similarity_score = 1 - snd p, report_id = md_get (metadata (fst p)) ''report_id''\<rparr>"
    by (auto simp: format_results_eq)
  from m have "(fst p, snd p) \<in> set (nearest dst docs q (nat k))" by simp
  from knn_scores [OF this] have "snd p = dst q (page_content (fst p))" "fst p \<in> set docs"
    by simp_all
  then show ?thesis using 2 k r that [of docs "fst p"] by simp
qed

text \<open>
  C3, as amended. For every positive \<open>k\<close>, \<open>search\<close> returns at most \<open>k\<close>
  results, sorted by non-increasing similarity; the similarity of a result is exactly 1
  minus the distance the index gives between the query and the chunk, with no clamping, so
  it is at most 1 when distances are non-negative. With a \<open>k\<close> that is not positive the
  index raises when the store is populated.
\<close>

theorem search_ranking:
  "(0 < k \<longrightarrow>
      (\<exists>rs. search dst st q k f = Inr rs
         \<and> int (length rs) \<le> k
         \<and> sorted_wrt (\<lambda>a b. a \<ge> b) (map similarity_score rs)
         \<and> list_all (\<lambda>r. similarity_score r = 1 - dst q (content r)) rs
         \<and> ((\<forall>c. 0 \<le> dst q c) \<longrightarrow> list_all (\<lambda>r. similarity_score r \<le> 1) rs)))
   \<and> (k \<le> 0 \<and> vector_store st \<noteq> None \<longrightarrow> search dst st q k f = Inl AssertionError)"
proof (intro conjI impI)
  assume pos: "0 < k"
  from search_pos [OF pos] obtain rs where run: "search dst st q k f = Inr rs" by blast
  have eq: "list_all (\<lambda>r. similarity_score r = 1 - dst q (content r)) rs"
    unfolding list_all_iff
  proof
    fix r assume "r \<in> set rs"
    with run obtain docs doc where "vector_store st = Some docs" and "doc \<in> set docs"
      and "content r = page_content doc" and "result_metadata r = metadata doc"
      and "similarity_score r = 1 - dst q (page_content doc)"
      and "\<not> (filter_applies f \<and> filter_skips (or_empty f) (metadata doc))"
      by (rule search_resultE)
    then show "similarity_score r = 1 - dst q (content r)" by simp
  qed
  have le: "(\<forall>c. 0 \<le> dst q c) \<longrightarrow> list_all (\<lambda>r. similarity_score r \<le> 1) rs"
  proof
    assume nn: "\<forall>c. 0 \<le> dst q c"
    show "list_all (\<lambda>r. similarity_score r \<le> 1) rs"
      unfolding list_all_iff
    proof
      fix r assume "r \<in> set rs"
      then have "similarity_score r = 1 - dst q (content r)"
        using eq by (simp add: list_all_iff)
      then show "similarity_score r \<le> 1" using nn by simp
    qed
  qed
  show "\<exists>rs. search dst st q k f = Inr rs
         \<and> int (length rs) \<le> k
         \<and> sorted_wrt (\<lambda>a b. a \<ge> b) (map similarity_score rs)
         \<and> list_all (\<lambda>r. similarity_score r = 1 - dst q (content r)) rs
         \<and> ((\<forall>c. 0 \<le> dst q c) \<longrightarrow> list_all (\<lambda>r. similarity_score r \<le> 1) rs)"
    using run search_length [OF run pos] search_scores_desc [OF run] eq le by blast
next
  assume "k \<le> 0 \<and> vector_store st \<noteq> None"
  then show "search dst st q k f = Inl AssertionError"
    using search_nonpos [of k st _ dst q f] by auto
qed

text \<open>
  C3, witness: the example store, whose distances are non-negative.
\<close>

theorem search_ranking_witness:
  "(0::int) < 2
   \<and> (\<forall>c. 0 \<le> example_dst ''any fever?'' c)
   \<and> (\<exists>rs. search example_dst example_store ''any fever?'' 2 None = Inr rs
         \<and> rs \<noteq> []
         \<and> int (length rs) \<le> 2
         \<and> list_all (\<lambda>r. similarity_score r \<le> 1) rs)"
proof -
  have nn: "\<forall>c. 0 \<le> example_dst ''any fever?'' c"
    by (simp add: example_dst_def)
  from search_ranking [of 2 example_dst example_store "''any fever?''" None] nn
  obtain rs where run: "search example_dst example_store ''any fever?'' 2 None = Inr rs"
    and len: "int (length rs) \<le> 2" and le: "list_all (\<lambda>r. similarity_score r \<le> 1) rs"
    by auto
  have "\<exists>r rest. search example_dst example_store ''any fever?'' 2 None = Inr (r # rest)"
    by (simp add: search_def example_store_def similarity_search_with_score_def nearest_def
      example_dst_def filter_applies_def)
  then have ne: "rs \<noteq> []" using run by auto
  show ?thesis using nn run len le ne by auto
qed

text \<open>
  C3, counterexample: with distances 1/2, 6/5 and 2 the similarities returned are 1/2, -1/5
  and -1; two of them lie outside \<open>[0, 1]\<close>.
\<close>

theorem search_similarity_counterexample:
  "map_sum id (map similarity_score) (search example_dst example_store ''any fever?'' 3 None)
     = Inr [1 / 2, - 1 / 5, - 1]"
  by (simp add: search_def example_store_def similarity_search_with_score_def nearest_def
      example_dst_def filter_applies_def)

text \<open>
  C4, as amended. The filter is applied after the \<open>k\<close> nearest chunks have been taken:
  \<open>search\<close> with a filter returns, in the same order, those results of the unfiltered
  search with the same \<open>k\<close> whose metadata passes the filter (an empty or absent filter
  passes all), and raises where the unfiltered search does. Every returned result's
  metadata has, for every pair of the filter, that value at that key. For positive \<open>k\<close>
  the search returns, and when every indexed chunk fails the filter it returns the empty
  list.
\<close>

theorem search_post_filters:
  "search dst st q k f =
     map_sum id (filter (\<lambda>r. \<not> (filter_applies f \<and> filter_skips (or_empty f) (result_metadata r))))
       (search dst st q k None)
   \<and> (\<forall>rs. search dst st q k f = Inr rs \<longrightarrow>
         list_all (\<lambda>r. list_all (\<lambda>(key, val). md_get (result_metadata r) key = val) (or_empty f)) rs)
   \<and> (0 < k \<longrightarrow> (\<exists>rs. search dst st q k f = Inr rs))
   \<and> (0 < k \<and> filter_applies f
          \<and> list_all (\<lambda>d. filter_skips (or_empty f) (metadata d))
                (case vector_store st of None \<Rightarrow> [] | Some docs \<Rightarrow> docs)
        \<longrightarrow> search dst st q k f = Inr [])"
proof -
  have post: "search dst st q k f =
     map_sum id (filter (\<lambda>r. \<not> (filter_applies f \<and> filter_skips (or_empty f) (result_metadata r))))
       (search dst st q k None)"
  proof (cases "vector_store st")
    case None
    then show ?thesis by (simp add: search_def)
  next
    case (Some docs)
    show ?thesis
    proof (cases "k \<le> 0")
      case True
      then show ?thesis using Some by (simp add: search_nonpos)
    next
      case False
      let ?rs = "nearest dst docs q (nat k)"
      let ?mk = "\<lambda>p. \<lparr>content = page_content (fst p), result_metadata = metadata (fst p),
              similarity_score = 1 - snd p, report_id = md_get (metadata (fst p)) ''report_id''\<rparr>"
      have n: "search dst st q k None = Inr (map ?mk ?rs)"
        using Some False by (simp add: search_pos format_results_eq filter_applies_def)
      have f: "search dst st q k f =
          Inr (map ?mk (filter (\<lambda>p. \<not> (filter_applies f \<and> filter_skips (or_empty f) (metadata (fst p)))) ?rs))"
        using Some False by (simp add: search_pos format_results_eq)
      show ?thesis unfolding n f by (simp add: filter_map comp_def)
    qed
  qed
  have sat: "\<forall>rs. search dst st q k f = Inr rs \<longrightarrow>
         list_all (\<lambda>r. list_all (\<lambda>(key, val). md_get (result_metadata r) key = val) (or_empty f)) rs"
  proof (intro allI impI)
    fix rs assume run: "search dst st q k f = Inr rs"
    show "list_all (\<lambda>r. list_all (\<lambda>(key, val). md_get (result_metadata r) key = val) (or_empty f)) rs"
      unfolding list_all_iff
    proof
      fix r assume "r \<in> set rs"
      with run obtain docs doc where "vector_store st = Some docs" and "doc \<in> set docs"
        and "content r = page_content doc" and md: "result_metadata r = metadata doc"
        and "similarity_score r = 1 - dst q (page_content doc)"
        and keep: "\<not> (filter_applies f \<and> filter_skips (or_empty f) (metadata doc))"
        by (rule search_resultE)
      show "\<forall>x\<in>set (or_empty f). case x of (key, val) \<Rightarrow> md_get (result_metadata r) key = val"
      proof (cases "filter_applies f")
        case True
        then have "\<not> filter_skips (or_empty f) (metadata doc)" using keep by simp
        then show ?thesis using md by (auto simp: filter_skips_iff list_ex_iff)
      next
        case False
        then have "or_empty f = []"
          by (cases f) (simp_all add: filter_applies_def or_empty_def)
        then show ?thesis by simp
      qed
    qed
  qed
  have ret: "0 < k \<longrightarrow> (\<exists>rs. search dst st q k f = Inr rs)"
    using search_pos [of k dst st q f] by blast
  have none: "0 < k \<and> filter_applies f
          \<and> list_all (\<lambda>d. filter_skips (or_empty f) (metadata d))
                (case vector_store st of None \<Rightarrow> [] | Some docs \<Rightarrow> docs)
        \<longrightarrow> search dst st q k f = Inr []"
  proof
    assume h: "0 < k \<and> filter_applies f
          \<and> list_all (\<lambda>d. filter_skips (or_empty f) (metadata d))
                (case vector_store st of None \<Rightarrow> [] | Some docs \<Rightarrow> docs)"
    then obtain rs where run: "search dst st q k f = Inr rs" using ret by blast
    have "rs = []"
    proof (rule ccontr)
      assume "rs \<noteq> []"
      then obtain r where "r \<in> set rs" by (cases rs) auto
      with run obtain docs doc where vs: "vector_store st = Some docs" and d: "doc \<in> set docs"
        and "content r = page_content doc" and "result_metadata r = metadata doc"
        and "similarity_score r = 1 - dst q (page_content doc)"
        and keep: "\<not> (filter_applies f \<and> filter_skips (or_empty f) (metadata doc))"
        by (rule search_resultE)
      from h vs have "filter_applies f" and "list_all (\<lambda>d. filter_skips (or_empty f) (metadata d)) docs"
        by simp_all
      then show False using d keep by (simp add: list_all_iff)
    qed
    then show "search dst st q k f = Inr []" using run by simp
  qed
  show ?thesis using post sat ret none by blast
qed

text \<open>
  C4, witness: on the example store a filter on a report id that is not indexed gives the
  empty list, and a filter on \<open>r3\<close> gives the chunk of \<open>r3\<close>.
\<close>

theorem search_post_filters_witness:
  "(0::int) < 3
   \<and> filter_applies (Some [(''report_id'', PStr ''r7'')])
   \<and> list_all (\<lambda>d. filter_skips (or_empty (Some [(''report_id'', PStr ''r7'')])) (metadata d))
         (case vector_store example_store of None \<Rightarrow> [] | Some docs \<Rightarrow> docs)
   \<and> search example_dst example_store ''any fever?'' 3 (Some [(''report_id'', PStr ''r7'')]) = Inr []
   \<and> search example_dst example_store ''any fever?'' 3 (Some [(''report_id'', PStr ''r3'')])
       = map_sum id (filter (\<lambda>r. \<not> (filter_applies (Some [(''report_id'', PStr ''r3'')])
                       \<and> filter_skips (or_empty (Some [(''report_id'', PStr ''r3'')])) (result_metadata r))))
           (search example_dst example_store ''any fever?'' 3 None)
   \<and> map_sum id (map content)
        (search example_dst example_store ''any fever?'' 3 (Some [(''report_id'', PStr ''r3'')]))
       = Inr [''glucose 180'']"
proof -
  have h: "filter_applies (Some [(''report_id'', PStr ''r7'')])
   \<and> list_all (\<lambda>d. filter_skips (or_empty (Some [(''report_id'', PStr ''r7'')])) (metadata d))
         (case vector_store example_store of None \<Rightarrow> [] | Some docs \<Rightarrow> docs)"
    by (simp add: example_store_def filter_applies_def or_empty_def md_get_def)
  have c: "map_sum id (map content)
        (search example_dst example_store ''any fever?'' 3 (Some [(''report_id'', PStr ''r3'')]))
       = Inr [''glucose 180'']"
    by (simp add: search_def example_store_def similarity_search_with_score_def nearest_def
      example_dst_def filter_applies_def or_empty_def md_get_def)
  have p: "(0::int) < 3" by simp
  from search_post_filters [of example_dst example_store "''any fever?''" 3 "Some [(''report_id'', PStr ''r7'')]"]
       search_post_filters [of example_dst example_store "''any fever?''" 3 "Some [(''report_id'', PStr ''r3'')]"]
       h c p
  show ?thesis by blast
qed

text \<open>
  C4, counterexample: with \<open>k = 1\<close> and a filter on report \<open>r2\<close> the result is empty,
  although a chunk of \<open>r2\<close> is indexed (with \<open>k = 3\<close> the same filter returns it): the
  nearest chunk overall belongs to \<open>r1\<close> and is filtered out.
\<close>

theorem search_filter_counterexample:
  "search example_dst example_store ''any x-ray?'' 1 (Some [(''report_id'', PStr ''r2'')]) = Inr []
   \<and> map_sum id (map content)
        (search example_dst example_store ''any x-ray?'' 3 (Some [(''report_id'', PStr ''r2'')]))
       = Inr [''normal chest x-ray'']"
  by (simp add: search_def example_store_def similarity_search_with_score_def nearest_def
      example_dst_def filter_applies_def or_empty_def md_get_def)

text \<open>
  C6. With two report ids \<open>search_by_report_ids\<close> passes no filter: asked for \<open>r2\<close> and
  \<open>r3\<close> on the example store, it returns the chunk of \<open>r1\<close> first. With the single id
  \<open>r2\<close> it returns the chunk of \<open>r2\<close> only.
\<close>

theorem search_by_report_ids_many_unrestricted:
  "map_sum id (map report_id)
     (search_by_report_ids example_dst example_store ''any fever?'' [''r2'', ''r3''] 3)
     = Inr [PStr ''r1'', PStr ''r3'', PStr ''r2'']
   \<and> map_sum id (map report_id)
     (search_by_report_ids example_dst example_store ''any fever?'' [''r2''] 3)
     = Inr [PStr ''r2'']"
  by (simp add: search_by_report_ids_def search_def example_store_def similarity_search_with_score_def
      nearest_def example_dst_def filter_applies_def or_empty_def md_get_def)

lemma search_each_empty_index:
  "vector_store st = None \<Longrightarrow> search_each dst st q k ids found = Inr found"
  by (induction ids arbitrary: found) (simp_all add: search_by_report_ids_def search_def)

text \<open>
  C7. A store whose index was never populated answers every search with the empty list, and
  \<open>answer_question\<close>, whenever it retrieves nothing, returns the "no relevant information"
  answer as a normal result; that answer has confidence 0 and no sources.
\<close>

theorem empty_index_no_information:
  "(vector_store st = None \<longrightarrow> search dst st q k f = Inr [])
   \<and> (vector_store st = None \<longrightarrow> answer_question dst llm round2 st q rids k = Inr no_information)
   \<and> (relevant_docs dst st q rids k = Inr [] \<longrightarrow>
        answer_question dst llm round2 st q rids k = Inr no_information)
   \<and> confidence no_information = 0
   \<and> sources no_information = []"
proof -
  have s: "vector_store st = None \<longrightarrow> search dst st q' k f' = Inr []" for q' f'
    by (simp add: search_def)
  have r: "vector_store st = None \<longrightarrow> relevant_docs dst st q rids k = Inr []"
    using s by (auto simp: relevant_docs_def search_each_empty_index split: option.splits)
  have a: "relevant_docs dst st q rids k = Inr [] \<longrightarrow>
        answer_question dst llm round2 st q rids k = Inr no_information"
    by (simp add: answer_question_def)
  show ?thesis using s r a by (simp add: no_information_def)
qed

text \<open>
  C7, witness: the empty store, and the example store asked about a report id it does not
  hold.
\<close>

theorem empty_index_no_information_witness:
  "vector_store empty_store = None
   \<and> search example_dst empty_store ''any fever?'' 5 None = Inr []
   \<and> answer_question example_dst (\<lambda>q docs. Some ''unused'') (\<lambda>x. x) empty_store ''any fever?'' (Some [''r1'']) 5
       = Inr no_information
   \<and> relevant_docs example_dst example_store ''any fever?'' (Some [''r7'']) 5 = Inr []
   \<and> answer_question example_dst (\<lambda>q docs. Some ''unused'') (\<lambda>x. x) example_store ''any fever?'' (Some [''r7'']) 5
       = Inr no_information"
proof -
  have e: "vector_store empty_store = None" by (simp add: empty_store_def)
  have r: "relevant_docs example_dst example_store ''any fever?'' (Some [''r7'']) 5 = Inr []"
    by (simp add: relevant_docs_def search_by_report_ids_def search_def example_store_def
      similarity_search_with_score_def nearest_def example_dst_def filter_applies_def or_empty_def
      md_get_def)
  from empty_index_no_information [of empty_store example_dst "''any fever?''" 5 None
         "\<lambda>q docs. Some ''unused''" "\<lambda>x. x" "Some [''r1'']"]
       empty_index_no_information [of example_store example_dst "''any fever?''" 5 None
         "\<lambda>q docs. Some ''unused''" "\<lambda>x. x" "Some [''r7'']"]
       e r
  show ?thesis by blast
qed

subsection \<open>Deletion\<close>

lemma length_delete_distinct:
  "distinct (map fst al) \<Longrightarrow> k \<in> fst ` set al \<Longrightarrow> length (AList.delete k al) + 1 = length al"
proof (induction al)
  case Nil
  then show ?case by simp
next
  case (Cons p al)
  show ?case
  proof (cases "fst p = k")
    case True
    then have "k \<notin> fst ` set al" using Cons.prems(1) by auto
    then show ?thesis using True by (cases p) (simp add: delete_id)
  next
    case False
    then show ?thesis using Cons by (cases p) auto
  qed
qed

text \<open>
  C8. For a report that \<open>get_stats\<close> lists, \<open>delete_report\<close> removes its entry from the
  metadata map: afterwards \<open>get_stats\<close> no longer lists the id and counts one report less,
  while the index is untouched, so the chunk count and every search result stay as they
  were.
\<close>

theorem delete_report_stats:
  assumes "dict_ok st" and "rid \<in> set (reports (get_stats st))"
  shows "rid \<notin> set (reports (get_stats (snd (delete_report st rid))))
       \<and> total_reports (get_stats (snd (delete_report st rid))) + 1 = total_reports (get_stats st)
       \<and> vector_store (snd (delete_report st rid)) = vector_store st
       \<and> total_chunks (get_stats (snd (delete_report st rid))) = total_chunks (get_stats st)
       \<and> search dst (snd (delete_report st rid)) q k f = search dst st q k f
       \<and> map_of (fst (delete_report st rid)) ''status'' = Some ''marked_for_deletion''"
proof -
  from assms(2) obtain docs where vs: "vector_store st = Some docs"
    by (cases "vector_store st") (simp_all add: get_stats_def)
  with assms(2) have mem: "rid \<in> set (map fst (metadata_store st))"
    by (simp add: get_stats_def)
  have del: "delete_report st rid =
      ([(''status'', ''marked_for_deletion''), (''note'', ''Full deletion requires rebuild'')],
       st\<lparr>metadata_store := AList.delete rid (metadata_store st)\<rparr>)"
    using mem by (simp add: delete_report_def)
  have gone: "rid \<notin> set (map fst (AList.delete rid (metadata_store st)))"
    using delete_notin_dom [of rid "metadata_store st"] by simp
  have len: "length (AList.delete rid (metadata_store st)) + 1 = length (metadata_store st)"
    using assms(1) mem by (intro length_delete_distinct) (simp_all add: dict_ok_def)
  show ?thesis
    using vs gone len by (simp add: del get_stats_def search_def)
qed

text \<open>
  C8, witness: deleting \<open>r2\<close> from the example store; its chunk is still found.
\<close>

theorem delete_report_stats_witness:
  "dict_ok example_store
   \<and> ''r2'' \<in> set (reports (get_stats example_store))
   \<and> reports (get_stats (snd (delete_report example_store ''r2''))) = [''r1'', ''r3'']
   \<and> total_reports (get_stats (snd (delete_report example_store ''r2''))) + 1
       = total_reports (get_stats example_store)
   \<and> map_sum id (map content)
        (search example_dst (snd (delete_report example_store ''r2'')) ''any x-ray?'' 3 None)
       = Inr [''fever and cough'', ''glucose 180'', ''normal chest x-ray'']"
proof -
  have ok: "dict_ok example_store" by (simp add: dict_ok_def example_store_def)
  have m: "''r2'' \<in> set (reports (get_stats example_store))"
    by (simp add: get_stats_def example_store_def)
  have r: "reports (get_stats (snd (delete_report example_store ''r2''))) = [''r1'', ''r3'']"
    by (simp add: get_stats_def delete_report_def example_store_def)
  have s: "map_sum id (map content) (search example_dst example_store ''any x-ray?'' 3 None)
       = Inr [''fever and cough'', ''glucose 180'', ''normal chest x-ray'']"
    by (simp add: search_def example_store_def similarity_search_with_score_def nearest_def
      example_dst_def filter_applies_def)
  from delete_report_stats [OF ok m, of example_dst "''any x-ray?''" 3 None]
  have t: "total_reports (get_stats (snd (delete_report example_store ''r2''))) + 1
       = total_reports (get_stats example_store)"
    and e: "search example_dst (snd (delete_report example_store ''r2'')) ''any x-ray?'' 3 None
       = search example_dst example_store ''any x-ray?'' 3 None"
    by blast+
  show ?thesis unfolding e using ok m r s t by blast
qed

subsection \<open>Structured extraction\<close>

lemma map_fst_map_entry: "map fst (AList.map_entry k f xs) = map fst xs"
  by (induction xs) auto

lemma dict_append_keys: "map fst (dict_append key x d) = map fst d"
  by (simp add: dict_append_def map_fst_map_entry)

lemma dict_append_lookup:
  "map_of (dict_append key x d) key' =
     (if key' = key then map_option (\<lambda>l. l @ [x]) (map_of d key) else map_of d key')"
  by (cases "map_of d key") (simp_all add: dict_append_def map_of_map_entry)

lemma structure_loop_keys: "map fst (structure_loop es d) = map fst d"
  by (induction es arbitrary: d) (simp_all add: Let_def dict_append_keys)

lemma structure_loop_other:
  "key \<noteq> ''medications'' \<Longrightarrow> key \<noteq> ''lab_values'' \<Longrightarrow> key \<noteq> ''vital_signs'' \<Longrightarrow>
   map_of (structure_loop es d) key = map_of d key"
  by (induction es arbitrary: d) (simp_all add: Let_def dict_append_lookup)

lemma structure_loop_medications:
  "map_of (structure_loop es d) ''medications'' =
     map_option (\<lambda>l. l @ map (\<lambda>e. (ent_text e, ent_confidence e))
                          (filter (\<lambda>e. lower (ent_label e) = ''medication'') es))
       (map_of d ''medications'')"
proof (induction es arbitrary: d)
  case Nil
  then show ?case by (simp add: option.map_ident)
next
  case (Cons e es)
  show ?case
    by (cases "map_of d ''medications''")
       (simp_all add: Let_def Cons.IH dict_append_lookup)
qed

lemma structure_loop_lab_values:
  "map_of (structure_loop es d) ''lab_values'' =
     map_option (\<lambda>l. l @ map (\<lambda>e. (ent_text e, ent_confidence e))
                          (filter (\<lambda>e. lower (ent_label e) = ''lab_value'') es))
       (map_of d ''lab_values'')"
proof (induction es arbitrary: d)
  case Nil
  then show ?case by (simp add: option.map_ident)
next
  case (Cons e es)
  show ?case
    by (cases "map_of d ''lab_values''")
       (simp_all add: Let_def Cons.IH dict_append_lookup)
qed

lemma structure_loop_vital_signs:
  "map_of (structure_loop es d) ''vital_signs'' =
     map_option (\<lambda>l. l @ map (\<lambda>e. (ent_text e, ent_confidence e))
                          (filter (\<lambda>e. lower (ent_label e) = ''vital_signs'') es))
       (map_of d ''vital_signs'')"
proof (induction es arbitrary: d)
  case Nil
  then show ?case by (simp add: option.map_ident)
next
  case (Cons e es)
  show ?case
    by (cases "map_of d ''vital_signs''")
       (simp_all add: Let_def Cons.IH dict_append_lookup)
qed

lemma lower_labels:
  "lower ''MEDICATION'' = ''medication''"
  "lower ''LAB_VALUE'' = ''lab_value''"
  "lower ''VITAL_SIGNS'' = ''vital_signs''"
  by code_simp+

lemma dedup_loop_subset: "set (dedup_loop xs acc) \<subseteq> set xs \<union> set acc"
proof (induction xs arbitrary: acc)
  case Nil
  then show ?case by simp
next
  case (Cons x xs)
  show ?case
  proof (cases "overlaps_existing x acc")
    case True
    then show ?thesis using Cons.IH [of acc] by auto
  next
    case False
    then show ?thesis using Cons.IH [of "acc @ [x]"] by auto
  qed
qed

lemma collect_matches_labels:
  "e \<in> set (collect_matches finditer txt) \<Longrightarrow>
     ent_label e = ''MEDICATION'' \<or> ent_label e = ''LAB_VALUE'' \<or> ent_label e = ''VITAL_SIGNS''"
  by (auto simp: collect_matches_def patterns_def match_entity_def)

lemma extract_entities_labels:
  assumes "e \<in> set (extract_entities finditer txt)"
  shows "ent_label e = ''MEDICATION'' \<or> ent_label e = ''LAB_VALUE'' \<or> ent_label e = ''VITAL_SIGNS''"
proof -
  have "set (extract_entities finditer txt) \<subseteq> set (collect_matches finditer txt)"
    using dedup_loop_subset [of "sort_entities (collect_matches finditer txt)" "[]"]
    by (simp add: extract_entities_def deduplicate_entities_def sort_entities_def)
  then show ?thesis using assms collect_matches_labels by blast
qed

lemma filter_by_label:
  "filter (\<lambda>e. lower (ent_label e) = ''medication'') (extract_entities finditer txt)
     = filter (\<lambda>e. ent_label e = ''MEDICATION'') (extract_entities finditer txt)"
  "filter (\<lambda>e. lower (ent_label e) = ''lab_value'') (extract_entities finditer txt)
     = filter (\<lambda>e. ent_label e = ''LAB_VALUE'') (extract_entities finditer txt)"
  "filter (\<lambda>e. lower (ent_label e) = ''vital_signs'') (extract_entities finditer txt)
     = filter (\<lambda>e. ent_label e = ''VITAL_SIGNS'') (extract_entities finditer txt)"
  by (rule filter_cong [OF refl], drule extract_entities_labels, auto simp: lower_labels)+

text \<open>
  C10. For every input text \<open>extract_structured_data\<close> returns a mapping with exactly
  the six keys \<open>medications\<close>, \<open>lab_values\<close>, \<open>vital_signs\<close>, \<open>diagnoses\<close>,
  \<open>procedures\<close>, \<open>symptoms\<close>; the last three map to the empty list, and the first three
  list, in order, the matched text and confidence of the deduplicated entities labelled
  \<open>MEDICATION\<close>, \<open>LAB_VALUE\<close> and \<open>VITAL_SIGNS\<close>.
\<close>

theorem extract_structured_data_shape:
  "map fst (extract_structured_data finditer txt)
     = [''medications'', ''lab_values'', ''vital_signs'', ''diagnoses'', ''procedures'', ''symptoms'']
   \<and> map_of (extract_structured_data finditer txt) ''diagnoses'' = Some []
   \<and> map_of (extract_structured_data finditer txt) ''procedures'' = Some []
   \<and> map_of (extract_structured_data finditer txt) ''symptoms'' = Some []
   \<and> map_of (extract_structured_data finditer txt) ''medications''
       = Some (map (\<lambda>e. (ent_text e, ent_confidence e))
                (filter (\<lambda>e. ent_label e = ''MEDICATION'') (extract_entities finditer txt)))
   \<and> map_of (extract_structured_data finditer txt) ''lab_values''
       = Some (map (\<lambda>e. (ent_text e, ent_confidence e))
                (filter (\<lambda>e. ent_label e = ''LAB_VALUE'') (extract_entities finditer txt)))
   \<and> map_of (extract_structured_data finditer txt) ''vital_signs''
       = Some (map (\<lambda>e. (ent_text e, ent_confidence e))
                (filter (\<lambda>e. ent_label e = ''VITAL_SIGNS'') (extract_entities finditer txt)))"
proof -
  have keys: "map fst (extract_structured_data finditer txt)
     = [''medications'', ''lab_values'', ''vital_signs'', ''diagnoses'', ''procedures'', ''symptoms'']"
    by (simp add: extract_structured_data_def structure_loop_keys structured_init_def)
  have d: "map_of (extract_structured_data finditer txt) ''diagnoses'' = Some []"
    by (simp add: extract_structured_data_def structure_loop_other structured_init_def)
  have p: "map_of (extract_structured_data finditer txt) ''procedures'' = Some []"
    by (simp add: extract_structured_data_def structure_loop_other structured_init_def)
  have s: "map_of (extract_structured_data finditer txt) ''symptoms'' = Some []"
    by (simp add: extract_structured_data_def structure_loop_other structured_init_def)
  have m: "map_of (extract_structured_data finditer txt) ''medications''
       = Some (map (\<lambda>e. (ent_text e, ent_confidence e))
                (filter (\<lambda>e. ent_label e = ''MEDICATION'') (extract_entities finditer txt)))"
    by (simp add: extract_structured_data_def structure_loop_medications structured_init_def
          filter_by_label)
  have l: "map_of (extract_structured_data finditer txt) ''lab_values''
       = Some (map (\<lambda>e. (ent_text e, ent_confidence e))
                (filter (\<lambda>e. ent_label e = ''LAB_VALUE'') (extract_entities finditer txt)))"
    by (simp add: extract_structured_data_def structure_loop_lab_values structured_init_def
          filter_by_label)
  have v: "map_of (extract_structured_data finditer txt) ''vital_signs''
       = Some (map (\<lambda>e. (ent_text e, ent_confidence e))
                (filter (\<lambda>e. ent_label e = ''VITAL_SIGNS'') (extract_entities finditer txt)))"
    by (simp add: extract_structured_data_def structure_loop_vital_signs structured_init_def
          filter_by_label)
  show ?thesis using keys d p s m l v by blast
qed

lemma extract_structured_data_example:
  "extract_structured_data example_matcher ''on aspirin and amlodipine; RR 16'' =
     [(''medications'', [(''aspirin'', 85 / 100), (''amlodipine'', 85 / 100)]),
      (''lab_values'', []),
      (''vital_signs'', [(''RR 16'', 85 / 100)]),
      (''diagnoses'', []), (''procedures'', []), (''symptoms'', [])]"
  by (simp add: extract_structured_data_def example_matcher_out dict_append_def structured_init_def lower_labels)

subsection \<open>Adding reports and reading chunks back\<close>

lemma from_texts_chunks:
  "chunks \<noteq> [] \<Longrightarrow>
   from_texts chunks (map (\<lambda>(i, chunk). g i) (enumerate 0 chunks)) =
     Inr (map (\<lambda>i. \<lparr>page_content = chunks ! i, metadata = g i\<rparr>) [0..<length chunks])"
proof -
  assume ne: "chunks \<noteq> []"
  have "map (\<lambda>(c, m). \<lparr>page_content = c, metadata = m\<rparr>)
          (zip chunks (map (\<lambda>(i, chunk). g i) (enumerate 0 chunks)))
        = map (\<lambda>i. \<lparr>page_content = chunks ! i, metadata = g i\<rparr>) [0..<length chunks]"
    by (rule nth_equalityI) (simp_all add: nth_enumerate_eq)
  then show ?thesis using ne by (simp add: from_texts_def)
qed

lemma add_report_eq:
  assumes "split_text txt \<noteq> []"
  shows "add_report split_text st rid txt md =
     Inr (\<lparr>added_report_id = rid, chunks_added = length (split_text txt), status = ''success''\<rparr>,
          st\<lparr>vector_store :=
                Some ((case vector_store st of None \<Rightarrow> [] | Some docs \<Rightarrow> docs) @
                      map (\<lambda>i. \<lparr>page_content = split_text txt ! i,
                                 metadata = chunk_metadata rid i (length (split_text txt)) (or_empty md)\<rparr>)
                        [0..<length (split_text txt)]),
             metadata_store := AList.update rid (or_empty md) (metadata_store st)\<rparr>)"
  using assms
  by (cases "vector_store st") (simp_all add: add_report_def Let_def from_texts_chunks merge_from_def)

lemma add_report_replicate:
  assumes "0 < n"
  shows "add_report (\<lambda>t. replicate n c) empty_store rid txt None =
     Inr (\<lparr>added_report_id = rid, chunks_added = n, status = ''success''\<rparr>,
          \<lparr>vector_store = Some
             (map (\<lambda>i. \<lparr>page_content = c,
                    metadata = [(''report_id'', PStr rid), (''chunk_id'', PNum (real i)),
                                (''chunk_total'', PNum (real n))]\<rparr>) [0..<n]),
           metadata_store = [(rid, [])]\<rparr>)"
proof -
  have ne: "(\<lambda>t. replicate n c) txt \<noteq> []" using assms by simp
  have docs: "map (\<lambda>i. \<lparr>page_content = replicate n c ! i,
                     metadata = chunk_metadata rid i n []\<rparr>) [0..<n]
        = map (\<lambda>i. \<lparr>page_content = c,
                    metadata = [(''report_id'', PStr rid), (''chunk_id'', PNum (real i)),
                                (''chunk_total'', PNum (real n))]\<rparr>) [0..<n]"
    by (rule map_cong) (simp_all add: chunk_metadata_def dict_merge_def)
  show ?thesis
    unfolding add_report_eq [of "\<lambda>t. replicate n c" "txt", OF ne]
    using docs by (simp add: empty_store_def or_empty_def)
qed

lemma big_store_built:
  "add_report big_split empty_store ''r1'' ''a long report'' None =
     Inr (\<lparr>added_report_id = ''r1'', chunks_added = 1001, status = ''success''\<rparr>, big_store)"
proof -
  have "big_split = (\<lambda>t. replicate 1001 ''chunk'')" by (simp add: big_split_def fun_eq_iff)
  then show ?thesis
    using add_report_replicate [of 1001 "''chunk''" "''r1''" "''a long report''"]
    by (simp only: big_store_def of_nat_numeral)
qed

lemma similarity_search_1000:
  "similarity_search dst docs q 1000 = Inr (map fst (nearest dst docs q 1000))"
  by (simp add: similarity_search_def similarity_search_with_score_def)

lemma nearest_docs_length:
  "length (map fst (nearest dst docs q n)) = min n (length docs)"
  by (simp add: nearest_def min.commute)

lemma nearest_docs_set:
  "set (map fst (nearest dst docs q n)) \<subseteq> set docs"
proof -
  have "set (take n (sort_key snd (map (\<lambda>doc. (doc, dst q (page_content doc))) docs)))
          \<subseteq> set (sort_key snd (map (\<lambda>doc. (doc, dst q (page_content doc))) docs))"
    by (rule set_take_subset)
  then show ?thesis
    by (auto simp: nearest_def)
qed


lemma get_report_chunks_eq:
  "vector_store st = Some docs \<Longrightarrow>
   get_report_chunks dst st rid =
     (case sort_by_chunk_id (report_chunk_dicts (map fst (nearest dst docs [] 1000)) rid) of
        Inl e \<Rightarrow> Inl e
      | Inr chunks \<Rightarrow> Inr (map fst chunks))"
  by (simp add: get_report_chunks_def similarity_search_1000)


lemma sort_by_chunk_id_nums:
  "list_all (\<lambda>c. is_num (snd c)) chunks \<Longrightarrow>
     \<exists>s. sort_by_chunk_id chunks = Inr s \<and> length s = length chunks"
  by (simp add: sort_by_chunk_id_def)


text \<open>
  C5. An index holding 1001 chunks, all of report \<open>r1\<close>: \<open>get_report_chunks\<close> returns
  1000 of them, whatever the distances are, because it reads the index through a search
  with \<open>k = 1000\<close>.
\<close>

theorem get_report_chunks_misses_beyond_1000:
  "total_chunks (get_stats big_store) = 1001
   \<and> list_all (\<lambda>d. md_get (metadata d) ''report_id'' = PStr ''r1'')
        (case vector_store big_store of None \<Rightarrow> [] | Some docs \<Rightarrow> docs)
   \<and> (\<exists>cs. get_report_chunks dst big_store ''r1'' = Inr cs \<and> length cs = 1000)"
proof -
  let ?docs = "map (\<lambda>i. \<lparr>page_content = ''chunk'',
                    metadata = [(''report_id'', PStr ''r1''), (''chunk_id'', PNum (real i)),
                                (''chunk_total'', PNum 1001)]\<rparr>) [0..<1001]"
  have vs: "vector_store big_store = Some ?docs" by (simp add: big_store_def)
  have n: "total_chunks (get_stats big_store) = 1001"
    by (simp add: get_stats_def big_store_def ntotal_def)
  have rid: "md_get (metadata d) ''report_id'' = PStr ''r1''" if "d \<in> set ?docs" for d
    using that by (auto simp: md_get_def)
  have cid: "is_num (md_get (metadata d) ''chunk_id'')" if "d \<in> set ?docs" for d
    using that by (auto simp: md_get_def)
  let ?ss = "map fst (nearest dst ?docs [] 1000)"
  have len: "length ?ss = 1000" unfolding nearest_docs_length by simp
  have sub: "set ?ss \<subseteq> set ?docs" by (rule nearest_docs_set)
  have keep: "filter (\<lambda>doc. md_get (metadata doc) ''report_id'' = PStr ''r1'') ?ss = ?ss"
    using sub rid by (intro filter_True) blast
  have dicts: "report_chunk_dicts ?ss ''r1'' =
      map (\<lambda>doc. (page_content doc, md_get (metadata doc) ''chunk_id'')) ?ss"
    unfolding report_chunk_dicts_def keep ..
  have nums: "list_all (\<lambda>c. is_num (snd c)) (report_chunk_dicts ?ss ''r1'')"
    unfolding dicts using sub cid by (auto simp: list_all_iff)
  from sort_by_chunk_id_nums [OF nums] obtain s where
    s: "sort_by_chunk_id (report_chunk_dicts ?ss ''r1'') = Inr s"
    and ls: "length s = length (report_chunk_dicts ?ss ''r1'')" by blast
  have "length s = 1000" using ls len by (simp add: dicts)
  then have g: "\<exists>cs. get_report_chunks dst big_store ''r1'' = Inr cs \<and> length cs = 1000"
    by (simp add: get_report_chunks_eq [OF vs] s)
  have all: "list_all (\<lambda>d. md_get (metadata d) ''report_id'' = PStr ''r1'')
        (case vector_store big_store of None \<Rightarrow> [] | Some docs \<Rightarrow> docs)"
    unfolding vs using rid by (simp add: list_all_iff)
  show ?thesis using n all g by blast
qed










lemma add_report_chunk_id_override_raises:
  "(case add_report example_split example_store ''r1'' ''follow-up note''
           (Some [(''chunk_id'', PStr ''x'')]) of
      Inl e \<Rightarrow> Inl e
    | Inr (res, st') \<Rightarrow> get_report_chunks example_dst st' ''r1'') = Inl TypeError"
proof -
  have ne: "example_split ''follow-up note'' \<noteq> []" by (simp add: example_split_def)
  show ?thesis
    by (simp add: add_report_eq [of example_split "''follow-up note''", OF ne]
          example_split_def chunk_metadata_def dict_merge_def or_empty_def example_store_def
          get_report_chunks_def report_chunk_dicts_def similarity_search_def
          similarity_search_with_score_def nearest_def sort_by_chunk_id_def example_dst_def
          md_get_def)
qed

subsection \<open>The metadata map stays a dict\<close>

lemma dict_ok_empty_store: "dict_ok empty_store"
  by (simp add: dict_ok_def empty_store_def)

lemma dict_ok_add_report:
  assumes "dict_ok st" and "add_report split_text st rid txt md = Inr (res, st')"
  shows "dict_ok st'"
proof -
  from assms(2) have "metadata_store st' = AList.update rid (or_empty md) (metadata_store st)"
    by (auto simp: add_report_def Let_def split: sum.splits)
  then show ?thesis using assms(1) by (simp add: dict_ok_def distinct_update)
qed

lemma dict_ok_delete_report: "dict_ok st \<Longrightarrow> dict_ok (snd (delete_report st rid))"
  by (simp add: dict_ok_def delete_report_def distinct_delete)

end
